theory Spec2Isabelle
  imports Main "HOL-Library.Word"
begin

unbundle bit_operations_syntax

section \<open>Python values used by the BLE services module\<close>

text \<open>
  The module \<^verbatim>\<open>open_gopro/ble/services.py\<close> is embedded function by function.
  Python's \<^verbatim>\<open>bytes\<close> is a list of 8-bit words, \<^verbatim>\<open>int\<close> is \<open>int\<close>,
  \<^verbatim>\<open>str\<close> is \<open>string\<close>, a \<^verbatim>\<open>dict\<close> is an association list in insertion
  order, and every exception the code can raise is a value of \<open>py_error\<close>.
\<close>

type_synonym byte = "8 word"

datatype py_error =
    KeyError
  | ValueError
  | OverflowError
  | PyException string

subsection \<open>Characters: lower-casing, replace, hex digits\<close>

definition lower_char :: "char \<Rightarrow> char" where
  "lower_char c =
     (let n = (of_char c :: nat) in if 65 \<le> n \<and> n \<le> 90 then char_of (n + 32) else c)"

text \<open>\<^verbatim>\<open>str.lower()\<close> on the characters of the model (A-Z go to a-z).\<close>

definition str_lower :: "string \<Rightarrow> string" where
  "str_lower s = map lower_char s"

text \<open>\<^verbatim>\<open>s.replace(c, "")\<close> for a one-character pattern: every occurrence goes.\<close>

definition remove_char :: "char \<Rightarrow> string \<Rightarrow> string" where
  "remove_char c s = filter (\<lambda>x. x \<noteq> c) s"

definition hexdigit :: "nat \<Rightarrow> char" where
  "hexdigit n = ''0123456789abcdef'' ! n"

text \<open>\<^verbatim>\<open>bytes.hex()\<close>: two lower-case hex digits per byte, high nibble first.\<close>

definition hex_byte :: "byte \<Rightarrow> string" where
  "hex_byte b = [hexdigit (unat b div 16), hexdigit (unat b mod 16)]"

definition bytes_hex :: "byte list \<Rightarrow> string" where
  "bytes_hex bs = concat (map hex_byte bs)"

text \<open>The value of a hex digit as \<^verbatim>\<open>bytes.fromhex\<close> reads it: 0-9, a-f, A-F.\<close>

definition hex_val :: "char \<Rightarrow> nat option" where
  "hex_val c =
     (let n = (of_char c :: nat) in
      if 48 \<le> n \<and> n \<le> 57 then Some (n - 48)
      else if 97 \<le> n \<and> n \<le> 102 then Some (n - 87)
      else if 65 \<le> n \<and> n \<le> 70 then Some (n - 55)
      else None)"

text \<open>ASCII whitespace, which \<^verbatim>\<open>bytes.fromhex\<close> skips between bytes.\<close>

definition is_space :: "char \<Rightarrow> bool" where
  "is_space c = (let n = (of_char c :: nat) in n = 32 \<or> (9 \<le> n \<and> n \<le> 13))"

text \<open>
  \<^verbatim>\<open>bytes.fromhex(s)\<close>: whitespace is skipped before a byte, then two hex digits
  are required; anything else raises \<^verbatim>\<open>ValueError\<close>.
\<close>

fun fromhex :: "string \<Rightarrow> py_error + byte list" where
  "fromhex [] = Inr []"
| "fromhex [c] = (if is_space c then Inr [] else Inl ValueError)"
| "fromhex (c # d # cs) =
     (if is_space c then fromhex (d # cs)
      else (case (hex_val c, hex_val d) of
              (Some t, Some b) \<Rightarrow>
                (case fromhex cs of
                   Inl e \<Rightarrow> Inl e
                 | Inr bs \<Rightarrow> Inr (of_nat (16 * t + b) # bs))
            | _ \<Rightarrow> Inl ValueError))"

text \<open>\<^verbatim>\<open>int.from_bytes(bs, "big")\<close>.\<close>

definition int_from_bytes :: "byte list \<Rightarrow> int" where
  "int_from_bytes bs = foldl (\<lambda>acc b. acc * 256 + uint b) 0 bs"

text \<open>
  \<^verbatim>\<open>int.to_bytes(n, length, "big")\<close>: \<^verbatim>\<open>OverflowError\<close> for a negative
  \<open>n\<close> and for one that does not fit in \<open>length\<close> bytes.
\<close>

fun be_bytes :: "nat \<Rightarrow> int \<Rightarrow> byte list" where
  "be_bytes 0 n = []"
| "be_bytes (Suc k) n = be_bytes k (n div 256) @ [word_of_int (n mod 256)]"

definition int_to_bytes :: "int \<Rightarrow> nat \<Rightarrow> py_error + byte list" where
  "int_to_bytes n len =
     (if n < 0 \<or> 256 ^ len \<le> n then Inl OverflowError else Inr (be_bytes len n))"

section \<open>UUID\<close>

datatype UuidLength = BIT_8 | BIT_128

fun UuidLength_int :: "UuidLength \<Rightarrow> nat" where
  "UuidLength_int BIT_8 = 2"
| "UuidLength_int BIT_128 = 16"

record UUID =
  uuid_value :: "byte list"
  uuid_name :: string

text \<open>The right-hand sides \<^verbatim>\<open>UUID.__eq__\<close> tells apart with \<^verbatim>\<open>isinstance\<close>.\<close>

datatype py_obj =
    ObjUUID UUID
  | ObjInt int
  | ObjBytes "byte list"
  | ObjStr string
  | ObjOther

definition as_int :: "UUID \<Rightarrow> int" where
  "as_int u = int_from_bytes (uuid_value u)"

text \<open>
  \<^verbatim>\<open>as_string\<close>: the slices \<^verbatim>\<open>[:8]\<close>, \<^verbatim>\<open>[8:12]\<close>, \<^verbatim>\<open>[12:16]\<close>,
  \<^verbatim>\<open>[16:20]\<close> and \<^verbatim>\<open>[20:]\<close> of the hex digits, joined by hyphens. A slice
  past the end of the digits is empty, as in Python.
\<close>

definition as_string :: "UUID \<Rightarrow> string" where
  "as_string u =
     (let h = bytes_hex (uuid_value u) in
      take 8 h @ ''-'' @ take 4 (drop 8 h) @ ''-'' @ take 4 (drop 12 h) @ ''-'' @
      take 4 (drop 16 h) @ ''-'' @ drop 20 h)"

definition UUID_str :: "UUID \<Rightarrow> string" where
  "UUID_str u = (if uuid_name u = [] then as_string u else uuid_name u)"

fun UUID_eq :: "UUID \<Rightarrow> py_obj \<Rightarrow> bool" where
  "UUID_eq u (ObjUUID other) = (uuid_value u = uuid_value other)"
| "UUID_eq u (ObjInt other) = (as_int u = other)"
| "UUID_eq u (ObjBytes other) = (uuid_value u = other)"
| "UUID_eq u (ObjStr other) =
     (str_lower (remove_char (CHR '':'') (as_string u)) = str_lower other)"
| "UUID_eq u ObjOther = False"

definition from_int :: "int \<Rightarrow> UuidLength \<Rightarrow> string \<Rightarrow> py_error + UUID" where
  "from_int n len nm =
     (case int_to_bytes n (UuidLength_int len) of
        Inl e \<Rightarrow> Inl e
      | Inr bs \<Rightarrow> Inr \<lparr>uuid_value = bs, uuid_name = nm\<rparr>)"

text \<open>\<^verbatim>\<open>UUID.normalize\<close> (named \<open>normalize_uuid\<close> here).\<close>

definition normalize_uuid :: "string \<Rightarrow> string" where
  "normalize_uuid s = remove_char (CHR ''-'') (remove_char (CHR '':'') s)"

definition from_string :: "string \<Rightarrow> string \<Rightarrow> py_error + UUID" where
  "from_string s nm =
     (case fromhex (normalize_uuid s) of
        Inl e \<Rightarrow> Inl e
      | Inr bs \<Rightarrow> Inr \<lparr>uuid_value = bs, uuid_name = nm\<rparr>)"

section \<open>Enumerations\<close>

text \<open>
  \<^verbatim>\<open>CharProps\<close> is an \<^verbatim>\<open>IntFlag\<close>: a property set is an integer, and
  \<^verbatim>\<open>flag in props\<close> is \<^verbatim>\<open>flag & props == flag\<close>.
\<close>

type_synonym CharProps = int

definition BROADCAST :: CharProps where "BROADCAST = 0x01"
definition READ :: CharProps where "READ = 0x02"
definition WRITE_NO_RSP :: CharProps where "WRITE_NO_RSP = 0x04"
definition WRITE_YES_RSP :: CharProps where "WRITE_YES_RSP = 0x08"
definition NOTIFY :: CharProps where "NOTIFY = 0x10"
definition INDICATE :: CharProps where "INDICATE = 0x20"
definition AUTH_SIGN_WRITE :: CharProps where "AUTH_SIGN_WRITE = 0x40"
definition EXTENDED :: CharProps where "EXTENDED = 0x80"
definition NOTIFY_ENCRYPTION_REQ :: CharProps where "NOTIFY_ENCRYPTION_REQ = 0x100"
definition INDICATE_ENCRYPTION_REQ :: CharProps where "INDICATE_ENCRYPTION_REQ = 0x200"

definition flag_in :: "CharProps \<Rightarrow> CharProps \<Rightarrow> bool" where
  "flag_in flag props = (flag AND props = flag)"

text \<open>\<^verbatim>\<open>CharProps(int(props))\<close>: an \<^verbatim>\<open>IntFlag\<close> keeps every integer as it is.\<close>

definition CharProps_of_int :: "int \<Rightarrow> CharProps" where
  "CharProps_of_int n = n"

datatype SpecUuidNumber =
    PRIMARY_SERVICE
  | SECONDARY_SERVICE
  | INCLUDE
  | CHAR_DECLARATION
  | CHAR_EXTENDED_PROPS
  | CHAR_USER_DESCR
  | CLIENT_CHAR_CONFIG
  | SERVER_CHAR_CONFIG
  | CHAR_FORMAT
  | CHAR_AGGREGATE_FORMAT

fun SpecUuidNumber_int :: "SpecUuidNumber \<Rightarrow> int" where
  "SpecUuidNumber_int PRIMARY_SERVICE = 0x2800"
| "SpecUuidNumber_int SECONDARY_SERVICE = 0x2801"
| "SpecUuidNumber_int INCLUDE = 0x2802"
| "SpecUuidNumber_int CHAR_DECLARATION = 0x2803"
| "SpecUuidNumber_int CHAR_EXTENDED_PROPS = 0x2900"
| "SpecUuidNumber_int CHAR_USER_DESCR = 0x2901"
| "SpecUuidNumber_int CLIENT_CHAR_CONFIG = 0x2902"
| "SpecUuidNumber_int SERVER_CHAR_CONFIG = 0x2903"
| "SpecUuidNumber_int CHAR_FORMAT = 0x2904"
| "SpecUuidNumber_int CHAR_AGGREGATE_FORMAT = 0x2905"

fun SpecUuidNumber_name :: "SpecUuidNumber \<Rightarrow> string" where
  "SpecUuidNumber_name PRIMARY_SERVICE = ''PRIMARY_SERVICE''"
| "SpecUuidNumber_name SECONDARY_SERVICE = ''SECONDARY_SERVICE''"
| "SpecUuidNumber_name INCLUDE = ''INCLUDE''"
| "SpecUuidNumber_name CHAR_DECLARATION = ''CHAR_DECLARATION''"
| "SpecUuidNumber_name CHAR_EXTENDED_PROPS = ''CHAR_EXTENDED_PROPS''"
| "SpecUuidNumber_name CHAR_USER_DESCR = ''CHAR_USER_DESCR''"
| "SpecUuidNumber_name CLIENT_CHAR_CONFIG = ''CLIENT_CHAR_CONFIG''"
| "SpecUuidNumber_name SERVER_CHAR_CONFIG = ''SERVER_CHAR_CONFIG''"
| "SpecUuidNumber_name CHAR_FORMAT = ''CHAR_FORMAT''"
| "SpecUuidNumber_name CHAR_AGGREGATE_FORMAT = ''CHAR_AGGREGATE_FORMAT''"

text \<open>\<^verbatim>\<open>SpecUuidNumber(n)\<close>: the member with value \<open>n\<close>, or \<^verbatim>\<open>ValueError\<close>.\<close>

definition SpecUuidNumber_of_int :: "int \<Rightarrow> py_error + SpecUuidNumber" where
  "SpecUuidNumber_of_int n =
     (if n = 0x2800 then Inr PRIMARY_SERVICE
      else if n = 0x2801 then Inr SECONDARY_SERVICE
      else if n = 0x2802 then Inr INCLUDE
      else if n = 0x2803 then Inr CHAR_DECLARATION
      else if n = 0x2900 then Inr CHAR_EXTENDED_PROPS
      else if n = 0x2901 then Inr CHAR_USER_DESCR
      else if n = 0x2902 then Inr CLIENT_CHAR_CONFIG
      else if n = 0x2903 then Inr SERVER_CHAR_CONFIG
      else if n = 0x2904 then Inr CHAR_FORMAT
      else if n = 0x2905 then Inr CHAR_AGGREGATE_FORMAT
      else Inl ValueError)"

section \<open>Dictionaries keyed by UUID\<close>

text \<open>
  A \<^verbatim>\<open>Dict[UUID, v]\<close> is an association list in insertion order. Keys are hashed
  and compared through \<^verbatim>\<open>UUID.__hash__\<close> and \<^verbatim>\<open>UUID.__eq__\<close>, that is by
  their bytes. \<open>dict_get\<close> is \<^verbatim>\<open>d[k]\<close>, \<open>dict_set\<close> is \<^verbatim>\<open>d[k] = v\<close>
  (an existing key keeps its place and its key object).
\<close>

fun dict_get :: "(UUID \<times> 'v) list \<Rightarrow> UUID \<Rightarrow> py_error + 'v" where
  "dict_get [] k = Inl KeyError"
| "dict_get ((k', v) # kvs) k =
     (if uuid_value k' = uuid_value k then Inr v else dict_get kvs k)"

fun dict_set :: "(UUID \<times> 'v) list \<Rightarrow> UUID \<Rightarrow> 'v \<Rightarrow> (UUID \<times> 'v) list" where
  "dict_set [] k v = [(k, v)]"
| "dict_set ((k', v') # kvs) k v =
     (if uuid_value k' = uuid_value k then (k', v) # kvs else (k', v') # dict_set kvs k v)"

text \<open>The invariant of a Python dictionary: no two keys are equal.\<close>

definition dict_inv :: "(UUID \<times> 'v) list \<Rightarrow> bool" where
  "dict_inv kvs = distinct (map (\<lambda>kv. uuid_value (fst kv)) kvs)"

section \<open>Descriptor, Characteristic, Service\<close>

record Descriptor =
  d_handle :: int
  d_uuid :: UUID
  d_value :: "byte list option"

record Characteristic =
  c_handle :: int
  c_descriptor_handle :: int
  c_uuid :: UUID
  c_props :: CharProps
  c_name :: string
  c_value :: "byte list option"
  c_descriptors :: "(UUID \<times> Descriptor) list"

text \<open>
  The name propagation of both \<^verbatim>\<open>__post_init__\<close> methods. The code writes the
  name into the UUID object it was given; here the record with the name set is returned.
  Equality and hashing of a UUID do not read its name.
\<close>

definition inherit_name :: "UUID \<Rightarrow> string \<Rightarrow> UUID" where
  "inherit_name u nm = (if uuid_name u = [] then u\<lparr>uuid_name := nm\<rparr> else u)"

definition Characteristic_post_init :: "Characteristic \<Rightarrow> Characteristic" where
  "Characteristic_post_init c =
     c\<lparr>c_props := CharProps_of_int (c_props c), c_uuid := inherit_name (c_uuid c) (c_name c)\<rparr>"

definition is_readable :: "Characteristic \<Rightarrow> bool" where
  "is_readable c = flag_in NOTIFY (c_props c)"

definition is_writeable_with_response :: "Characteristic \<Rightarrow> bool" where
  "is_writeable_with_response c = flag_in WRITE_YES_RSP (c_props c)"

definition is_writeable_without_response :: "Characteristic \<Rightarrow> bool" where
  "is_writeable_without_response c = flag_in WRITE_NO_RSP (c_props c)"

definition is_writeable :: "Characteristic \<Rightarrow> bool" where
  "is_writeable c = (is_writeable_with_response c \<or> is_writeable_without_response c)"

definition is_notifiable :: "Characteristic \<Rightarrow> bool" where
  "is_notifiable c = flag_in NOTIFY (c_props c)"

definition is_indicatable :: "Characteristic \<Rightarrow> bool" where
  "is_indicatable c = flag_in INDICATE (c_props c)"

definition cccd_handle :: "Characteristic \<Rightarrow> py_error + int" where
  "cccd_handle c =
     (case from_int (SpecUuidNumber_int CLIENT_CHAR_CONFIG) BIT_8 [] of
        Inl e \<Rightarrow> Inl e
      | Inr k \<Rightarrow>
          (case dict_get (c_descriptors c) k of
             Inl e \<Rightarrow> Inl e
           | Inr d \<Rightarrow> Inr (d_handle d)))"

record Service =
  s_uuid :: UUID
  s_start_handle :: int
  s_name :: string
  s_end_handle :: int
  s_chars :: "(UUID \<times> Characteristic) list"

definition Service_post_init :: "Service \<Rightarrow> Service" where
  "Service_post_init s = s\<lparr>s_uuid := inherit_name (s_uuid s) (s_name s)\<rparr>"

section \<open>GattDB\<close>

text \<open>
  Every method of \<^verbatim>\<open>GattDB\<close> and of its \<^verbatim>\<open>CharacteristicView\<close> reads
  \<^verbatim>\<open>self.services\<close> when it is called. The functions of this section take that
  mapping, as it is at the call, as their first argument.
\<close>

type_synonym ServiceMap = "(UUID \<times> Service) list"

text \<open>
  The two nested \<^verbatim>\<open>for\<close> loops that return at the first characteristic
  satisfying a test: the inner loop over \<^verbatim>\<open>service.chars.values()\<close>, the outer
  one over \<^verbatim>\<open>services.values()\<close>.
\<close>

fun scan_chars :: "(Characteristic \<Rightarrow> bool) \<Rightarrow> (UUID \<times> Characteristic) list \<Rightarrow> Characteristic option" where
  "scan_chars P [] = None"
| "scan_chars P ((k, c) # cs) = (if P c then Some c else scan_chars P cs)"

fun scan_services :: "(Characteristic \<Rightarrow> bool) \<Rightarrow> ServiceMap \<Rightarrow> Characteristic option" where
  "scan_services P [] = None"
| "scan_services P ((k, s) # ss) =
     (case scan_chars P (s_chars s) of
        Some c \<Rightarrow> Some c
      | None \<Rightarrow> scan_services P ss)"

definition CharacteristicView_getitem :: "ServiceMap \<Rightarrow> py_obj \<Rightarrow> py_error + Characteristic" where
  "CharacteristicView_getitem ss key =
     (case scan_services (\<lambda>c. UUID_eq (c_uuid c) key) ss of
        Some c \<Rightarrow> Inr c
      | None \<Rightarrow> Inl KeyError)"

definition CharacteristicView_contains :: "ServiceMap \<Rightarrow> py_obj \<Rightarrow> bool" where
  "CharacteristicView_contains ss key =
     (case scan_services (\<lambda>c. UUID_eq (c_uuid c) key) ss of
        Some c \<Rightarrow> True
      | None \<Rightarrow> False)"

definition CharacteristicView_len :: "ServiceMap \<Rightarrow> nat" where
  "CharacteristicView_len ss = sum_list (map (\<lambda>(k, s). length (s_chars s)) ss)"

definition CharacteristicView_keys :: "ServiceMap \<Rightarrow> UUID list" where
  "CharacteristicView_keys ss = concat (map (\<lambda>(k, s). map fst (s_chars s)) ss)"

definition CharacteristicView_values :: "ServiceMap \<Rightarrow> Characteristic list" where
  "CharacteristicView_values ss = concat (map (\<lambda>(k, s). map snd (s_chars s)) ss)"

definition CharacteristicView_items :: "ServiceMap \<Rightarrow> (UUID \<times> Characteristic) list" where
  "CharacteristicView_items ss = concat (map (\<lambda>(k, s). s_chars s) ss)"

definition handle2uuid :: "ServiceMap \<Rightarrow> int \<Rightarrow> py_error + UUID" where
  "handle2uuid ss handle =
     (case scan_services (\<lambda>c. c_handle c = handle) ss of
        Some c \<Rightarrow> Inr (c_uuid c)
      | None \<Rightarrow> Inl KeyError)"

definition uuid2handle :: "ServiceMap \<Rightarrow> UUID \<Rightarrow> py_error + int" where
  "uuid2handle ss uuid =
     (case CharacteristicView_getitem ss (ObjUUID uuid) of
        Inl e \<Rightarrow> Inl e
      | Inr c \<Rightarrow> Inr (c_handle c))"

subsection \<open>The CSV dump\<close>

text \<open>
  A cell is the Python value handed to \<^verbatim>\<open>csv.writer.writerow\<close>, which writes a
  string as it is, nothing for \<^verbatim>\<open>None\<close>, and \<^verbatim>\<open>str(x)\<close> for anything else.
  \<open>CellClassUUID\<close> is the class object \<^verbatim>\<open>UUID\<close>; \<open>CellProps p\<close> is the
  string \<^verbatim>\<open>str(char.props)\<close> of the flag set \<open>p\<close>. The file is the list of the
  rows written so far, and a dump that raises keeps the rows written before. Opening
  the file and the debug line sent to the logger are left out.
\<close>

datatype csv_cell =
    CellStr string
  | CellInt int
  | CellSpecUuid SpecUuidNumber
  | CellClassUUID
  | CellProps CharProps
  | CellBytes "byte list"
  | CellNone

type_synonym csv_row = "csv_cell list"

definition cell_of_value :: "byte list option \<Rightarrow> csv_cell" where
  "cell_of_value v = (case v of None \<Rightarrow> CellNone | Some bs \<Rightarrow> CellBytes bs)"

definition header_row :: csv_row where
  "header_row =
     [CellStr ''handle'', CellStr ''description'', CellClassUUID, CellStr ''properties'',
      CellStr ''value'']"

definition service_row :: "Service \<Rightarrow> csv_row" where
  "service_row s =
     [CellInt (s_start_handle s), CellSpecUuid PRIMARY_SERVICE, CellStr (as_string (s_uuid s)),
      CellStr (if s_name s = [] then ''unknown'' else s_name s), CellStr ''SERVICE'']"

definition declaration_row :: "Characteristic \<Rightarrow> csv_row" where
  "declaration_row c =
     [CellInt (c_descriptor_handle c), CellSpecUuid CHAR_DECLARATION, CellStr ''28:03'',
      CellProps (c_props c), CellStr []]"

definition value_row :: "Characteristic \<Rightarrow> csv_row" where
  "value_row c =
     [CellInt (c_handle c), CellStr (if c_name c = [] then ''unknown'' else c_name c),
      CellStr (as_string (c_uuid c)), CellStr [], cell_of_value (c_value c)]"

definition descriptor_row :: "Descriptor \<Rightarrow> py_error + csv_row" where
  "descriptor_row d =
     (case SpecUuidNumber_of_int (as_int (d_uuid d)) of
        Inl e \<Rightarrow> Inl e
      | Inr m \<Rightarrow>
          Inr [CellInt (d_handle d), CellStr (SpecUuidNumber_name m),
               CellStr (as_string (d_uuid d)), CellStr [], cell_of_value (d_value d)])"

fun dump_descriptors :: "(UUID \<times> Descriptor) list \<Rightarrow> csv_row list \<Rightarrow> csv_row list \<times> py_error option" where
  "dump_descriptors [] w = (w, None)"
| "dump_descriptors ((k, d) # ds) w =
     (case descriptor_row d of
        Inl e \<Rightarrow> (w, Some e)
      | Inr r \<Rightarrow> dump_descriptors ds (w @ [r]))"

fun dump_chars :: "(UUID \<times> Characteristic) list \<Rightarrow> csv_row list \<Rightarrow> csv_row list \<times> py_error option" where
  "dump_chars [] w = (w, None)"
| "dump_chars ((k, c) # cs) w =
     (case dump_descriptors (c_descriptors c) (w @ [declaration_row c] @ [value_row c]) of
        (w', Some e) \<Rightarrow> (w', Some e)
      | (w', None) \<Rightarrow> dump_chars cs w')"

fun dump_services :: "ServiceMap \<Rightarrow> csv_row list \<Rightarrow> csv_row list \<times> py_error option" where
  "dump_services [] w = (w, None)"
| "dump_services ((k, s) # ss) w =
     (case dump_chars (s_chars s) (w @ [service_row s]) of
        (w', Some e) \<Rightarrow> (w', Some e)
      | (w', None) \<Rightarrow> dump_services ss w')"

definition dump_to_csv :: "ServiceMap \<Rightarrow> csv_row list \<times> py_error option" where
  "dump_to_csv ss = dump_services ss [header_row]"

text \<open>The rows after the header.\<close>

definition body_rows :: "csv_row list \<times> py_error option \<Rightarrow> csv_row list" where
  "body_rows res = tl (fst res)"

subsection \<open>Objects in a store\<close>

text \<open>
  \<^verbatim>\<open>GattDB.__init__\<close> keeps the dictionary it is given, not a copy, and the view
  keeps the \<^verbatim>\<open>GattDB\<close>. The store holds the objects that are shared: the
  dictionaries of services (a key and the address of a \<^verbatim>\<open>Service\<close>), the
  \<^verbatim>\<open>Service\<close> objects and the \<^verbatim>\<open>GattDB\<close> objects. Each \<^verbatim>\<open>Service\<close>
  owns its \<^verbatim>\<open>chars\<close> dictionary.
\<close>

type_synonym addr = nat

record CharacteristicView =
  view_db :: addr

record GattDB =
  db_services :: addr
  db_characteristics :: CharacteristicView

record store =
  service_dicts :: "addr \<Rightarrow> (UUID \<times> addr) list"
  service_objs :: "addr \<Rightarrow> Service"
  gattdb_objs :: "addr \<Rightarrow> GattDB"

text \<open>\<^verbatim>\<open>GattDB(services)\<close>, the new object at address \<open>a\<close>.\<close>

definition GattDB_init :: "store \<Rightarrow> addr \<Rightarrow> addr \<Rightarrow> store" where
  "GattDB_init h a services =
     h\<lparr>gattdb_objs := (gattdb_objs h)
          (a := \<lparr>db_services = services, db_characteristics = \<lparr>view_db = a\<rparr>\<rparr>)\<rparr>"

text \<open>\<^verbatim>\<open>self._db.services\<close> with every \<^verbatim>\<open>Service\<close> read from the store.\<close>

definition view_services :: "store \<Rightarrow> CharacteristicView \<Rightarrow> ServiceMap" where
  "view_services h v =
     map (\<lambda>(k, sa). (k, service_objs h sa))
       (service_dicts h (db_services (gattdb_objs h (view_db v))))"

definition view_getitem :: "store \<Rightarrow> CharacteristicView \<Rightarrow> py_obj \<Rightarrow> py_error + Characteristic" where
  "view_getitem h v key = CharacteristicView_getitem (view_services h v) key"

definition view_contains :: "store \<Rightarrow> CharacteristicView \<Rightarrow> py_obj \<Rightarrow> bool" where
  "view_contains h v key = CharacteristicView_contains (view_services h v) key"

definition view_len :: "store \<Rightarrow> CharacteristicView \<Rightarrow> nat" where
  "view_len h v = CharacteristicView_len (view_services h v)"

text \<open>\<^verbatim>\<open>service.chars[key] = char\<close> for the \<^verbatim>\<open>Service\<close> at address \<open>sa\<close>.\<close>

definition add_characteristic :: "store \<Rightarrow> addr \<Rightarrow> UUID \<Rightarrow> Characteristic \<Rightarrow> store" where
  "add_characteristic h sa key c =
     h\<lparr>service_objs := (service_objs h)
          (sa := (service_objs h sa)\<lparr>s_chars := dict_set (s_chars (service_objs h sa)) key c\<rparr>)\<rparr>"

text \<open>Any number of such additions, one after the other.\<close>

definition add_characteristics :: "(addr \<times> UUID \<times> Characteristic) list \<Rightarrow> store \<Rightarrow> store" where
  "add_characteristics adds h = fold (\<lambda>(sa, key, c) h'. add_characteristic h' sa key c) adds h"

text \<open>The number of characteristics of the \<^verbatim>\<open>Service\<close> at an address.\<close>

definition char_count :: "store \<Rightarrow> addr \<Rightarrow> nat" where
  "char_count h sa = length (s_chars (service_objs h sa))"

section \<open>The UUIDs registry\<close>

text \<open>
  \<^verbatim>\<open>UUIDs()\<close> runs \<^verbatim>\<open>UUIDs.__new__(cls)\<close>, which takes the class and nothing
  else, and would initialise the instance it returned.
\<close>

datatype UUIDs_instance = UUIDs_instance

definition UUIDs_new :: "unit \<Rightarrow> py_error + UUIDs_instance" where
  "UUIDs_new cls = Inl (PyException ''This class shall not be instantiated'')"

definition UUIDs_call :: "unit \<Rightarrow> py_error + UUIDs_instance" where
  "UUIDs_call cls = (case UUIDs_new cls of Inl e \<Rightarrow> Inl e | Inr obj \<Rightarrow> Inr obj)"

section \<open>Predicates and values the properties are stated with\<close>

definition is_hex_digit :: "char \<Rightarrow> bool" where
  "is_hex_digit c = (hex_val c \<noteq> None)"

definition is_lower_hex_digit :: "char \<Rightarrow> bool" where
  "is_lower_hex_digit c = (c \<in> set ''0123456789abcdef'')"

text \<open>What every digit that \<^verbatim>\<open>bytes.hex()\<close> writes satisfies.\<close>

definition hexdigit_ok :: "nat \<Rightarrow> bool" where
  "hexdigit_ok n =
     (hex_val (hexdigit n) = Some n \<and> lower_char (hexdigit n) = hexdigit n \<and>
      hexdigit n \<noteq> CHR '':'' \<and> hexdigit n \<noteq> CHR ''-'' \<and> is_lower_hex_digit (hexdigit n))"

text \<open>A 128-bit UUID string: 32 hex digits once the separators are stripped.\<close>

definition valid_uuid128_string :: "string \<Rightarrow> bool" where
  "valid_uuid128_string s =
     (length (normalize_uuid s) = 32 \<and> list_all is_hex_digit (normalize_uuid s))"

text \<open>The 2-byte UUID \<^verbatim>\<open>0x2902\<close> and the Battery scenario.\<close>

definition uuid_2902 :: UUID where
  "uuid_2902 = \<lparr>uuid_value = [0x29, 0x02], uuid_name = []\<rparr>"

definition S_BATTERY :: UUID where
  "S_BATTERY =
     \<lparr>uuid_value = [0x00, 0x00, 0x18, 0x0f, 0x00, 0x00, 0x10, 0x00,
                     0x80, 0x00, 0x00, 0x80, 0x5f, 0x9b, 0x34, 0xfb],
      uuid_name = ''Battery Service''\<rparr>"

definition BATT_LEVEL :: UUID where
  "BATT_LEVEL =
     \<lparr>uuid_value = [0x00, 0x00, 0x2a, 0x19, 0x00, 0x00, 0x10, 0x00,
                     0x80, 0x00, 0x00, 0x80, 0x5f, 0x9b, 0x34, 0xfb],
      uuid_name = ''Battery Level''\<rparr>"

definition battery_cccd :: Descriptor where
  "battery_cccd = \<lparr>d_handle = 0x13, d_uuid = uuid_2902, d_value = Some [0x01, 0x00]\<rparr>"

definition battery_level :: Characteristic where
  "battery_level =
     Characteristic_post_init
       \<lparr>c_handle = 0x12, c_descriptor_handle = 0x11, c_uuid = BATT_LEVEL,
        c_props = READ OR NOTIFY, c_name = ''Battery Level'', c_value = None,
        c_descriptors = [(uuid_2902, battery_cccd)]\<rparr>"

definition battery_service :: Service where
  "battery_service =
     Service_post_init
       \<lparr>s_uuid = S_BATTERY, s_start_handle = 0x10, s_name = ''Battery Service'',
        s_end_handle = 0xFFFF, s_chars = [(BATT_LEVEL, battery_level)]\<rparr>"

definition battery_db :: ServiceMap where
  "battery_db = [(S_BATTERY, battery_service)]"

text \<open>A second service, so that lookups have something to pass over.\<close>

definition S_DEV_INFO :: UUID where
  "S_DEV_INFO =
     \<lparr>uuid_value = [0x00, 0x00, 0x18, 0x0a, 0x00, 0x00, 0x10, 0x00,
                     0x80, 0x00, 0x00, 0x80, 0x5f, 0x9b, 0x34, 0xfb],
      uuid_name = ''Device Information Service''\<rparr>"

definition INF_MODEL_NUM :: UUID where
  "INF_MODEL_NUM =
     \<lparr>uuid_value = [0x00, 0x00, 0x2a, 0x24, 0x00, 0x00, 0x10, 0x00,
                     0x80, 0x00, 0x00, 0x80, 0x5f, 0x9b, 0x34, 0xfb],
      uuid_name = ''Model Number''\<rparr>"

definition model_number :: Characteristic where
  "model_number =
     Characteristic_post_init
       \<lparr>c_handle = 0x22, c_descriptor_handle = 0x21, c_uuid = INF_MODEL_NUM,
        c_props = READ, c_name = ''Model Number'', c_value = None, c_descriptors = []\<rparr>"

definition dev_info_service :: Service where
  "dev_info_service =
     Service_post_init
       \<lparr>s_uuid = S_DEV_INFO, s_start_handle = 0x20, s_name = ''Device Information Service'',
        s_end_handle = 0xFFFF, s_chars = [(INF_MODEL_NUM, model_number)]\<rparr>"

definition two_service_db :: ServiceMap where
  "two_service_db = [(S_DEV_INFO, dev_info_service), (S_BATTERY, battery_service)]"

text \<open>
  A store with the Battery service at address 1, the dictionary of services at
  address 0, and nothing else.
\<close>

definition battery_store :: store where
  "battery_store =
     \<lparr>service_dicts = (\<lambda>a. [])(0 := [(S_BATTERY, 1)]),
      service_objs = (\<lambda>a. battery_service),
      gattdb_objs = (\<lambda>a. \<lparr>db_services = 0, db_characteristics = \<lparr>view_db = a\<rparr>\<rparr>)\<rparr>"

text \<open>
  A \<^verbatim>\<open>GattDB\<close> built at address 5 over that dictionary, its view, and the store
  after the Model Number characteristic is added to the Battery service.
\<close>

definition live_store :: store where
  "live_store = GattDB_init battery_store 5 0"

definition live_view :: CharacteristicView where
  "live_view = db_characteristics (gattdb_objs live_store 5)"

definition grown_store :: store where
  "grown_store = add_characteristic live_store 1 INF_MODEL_NUM model_number"

text \<open>
  Two characteristics whose descriptor is stored under a key that is not its own UUID:
  a descriptor with UUID \<^verbatim>\<open>0x2901\<close> under the key \<^verbatim>\<open>0x2902\<close>, and the CCCD
  under the key \<^verbatim>\<open>0x2901\<close>.
\<close>

definition uuid_2901 :: UUID where
  "uuid_2901 = \<lparr>uuid_value = [0x29, 0x01], uuid_name = []\<rparr>"

definition user_descr :: Descriptor where
  "user_descr = \<lparr>d_handle = 0x14, d_uuid = uuid_2901, d_value = None\<rparr>"

definition miskeyed_characteristic :: Characteristic where
  "miskeyed_characteristic = battery_level\<lparr>c_descriptors := [(uuid_2902, user_descr)]\<rparr>"

definition hidden_cccd_characteristic :: Characteristic where
  "hidden_cccd_characteristic = battery_level\<lparr>c_descriptors := [(uuid_2901, battery_cccd)]\<rparr>"

text \<open>
  A store with two services, Device Information (address 2) before Battery (address
  1), a \<^verbatim>\<open>GattDB\<close> built over it at address 5, and the store after a second
  characteristic with the Model Number UUID is added to the Battery service.
\<close>

definition two_service_store :: store where
  "two_service_store =
     \<lparr>service_dicts = (\<lambda>a. [])(0 := [(S_DEV_INFO, 2), (S_BATTERY, 1)]),
      service_objs = (\<lambda>a. battery_service)(2 := dev_info_service),
      gattdb_objs = (\<lambda>a. \<lparr>db_services = 0, db_characteristics = \<lparr>view_db = a\<rparr>\<rparr>)\<rparr>"

definition second_model_number :: Characteristic where
  "second_model_number =
     Characteristic_post_init
       \<lparr>c_handle = 0x30, c_descriptor_handle = 0x2f, c_uuid = INF_MODEL_NUM,
        c_props = READ, c_name = ''Model Number'', c_value = None, c_descriptors = []\<rparr>"

definition two_service_live :: store where
  "two_service_live = GattDB_init two_service_store 5 0"

definition two_service_view :: CharacteristicView where
  "two_service_view = db_characteristics (gattdb_objs two_service_live 5)"

definition two_service_grown :: store where
  "two_service_grown = add_characteristic two_service_live 1 INF_MODEL_NUM second_model_number"

text \<open>
  A dictionary of descriptors is keyed by the UUID of each descriptor (the mapping the
  discovery hands over); the same for the characteristics of a service.
\<close>

definition keyed_by_uuid :: "(UUID \<times> Descriptor) list \<Rightarrow> bool" where
  "keyed_by_uuid ds = list_all (\<lambda>kd. uuid_value (fst kd) = uuid_value (d_uuid (snd kd))) ds"

text \<open>The bytes of the Client Characteristic Configuration Descriptor UUID.\<close>

definition cccd_bytes :: "byte list" where
  "cccd_bytes = [0x29, 0x02]"

text \<open>Value handles and characteristic UUIDs are unique across the table.\<close>

definition unique_handles :: "ServiceMap \<Rightarrow> bool" where
  "unique_handles db = distinct (map c_handle (CharacteristicView_values db))"

definition unique_uuids :: "ServiceMap \<Rightarrow> bool" where
  "unique_uuids db = distinct (map (\<lambda>c. uuid_value (c_uuid c)) (CharacteristicView_values db))"

text \<open>The five column names the header is specified to hold.\<close>

definition specified_header :: csv_row where
  "specified_header =
     [CellStr ''handle'', CellStr ''description'', CellStr ''uuid'', CellStr ''properties'',
      CellStr ''value'']"

section \<open>Hex digits and bytes\<close>


lemma hexdigit_table: "list_all hexdigit_ok [0..<16]"
  by code_simp

lemma hexdigit_props: "n < 16 \<Longrightarrow> hexdigit_ok n"
  using hexdigit_table by (simp add: list_all_iff)

lemma hexdigit_inverse: "n < 16 \<Longrightarrow> hex_val (hexdigit n) = Some n"
  using hexdigit_props [of n] by (simp add: hexdigit_ok_def)

lemma hexdigit_lower: "n < 16 \<Longrightarrow> lower_char (hexdigit n) = hexdigit n"
  using hexdigit_props [of n] by (simp add: hexdigit_ok_def)

lemma hexdigit_not_sep: "n < 16 \<Longrightarrow> hexdigit n \<noteq> CHR '':'' \<and> hexdigit n \<noteq> CHR ''-''"
  using hexdigit_props [of n] by (simp add: hexdigit_ok_def)

lemma hex_val_lt16: "hex_val c = Some n \<Longrightarrow> n < 16"
  by (auto simp: hex_val_def Let_def split: if_splits)

lemma hex_val_not_space: "hex_val c = Some n \<Longrightarrow> \<not> is_space c"
  by (auto simp: hex_val_def is_space_def Let_def split: if_splits)

lemma char_of_hex_codes:
  "char_of (48::nat) = CHR ''0''" "char_of (49::nat) = CHR ''1''" "char_of (50::nat) = CHR ''2''"
  "char_of (51::nat) = CHR ''3''" "char_of (52::nat) = CHR ''4''" "char_of (53::nat) = CHR ''5''"
  "char_of (54::nat) = CHR ''6''" "char_of (55::nat) = CHR ''7''" "char_of (56::nat) = CHR ''8''"
  "char_of (57::nat) = CHR ''9''" "char_of (97::nat) = CHR ''a''" "char_of (98::nat) = CHR ''b''"
  "char_of (99::nat) = CHR ''c''" "char_of (100::nat) = CHR ''d''" "char_of (101::nat) = CHR ''e''"
  "char_of (102::nat) = CHR ''f''" "char_of (65::nat) = CHR ''A''" "char_of (66::nat) = CHR ''B''"
  "char_of (67::nat) = CHR ''C''" "char_of (68::nat) = CHR ''D''" "char_of (69::nat) = CHR ''E''"
  "char_of (70::nat) = CHR ''F''"
  by code_simp+

lemma hex_val_lower:
  assumes "hex_val c = Some n"
  shows "hexdigit n = lower_char c"
proof -
  define m where "m = (of_char c :: nat)"
  have c: "c = char_of m"
    by (simp add: m_def)
  from assms have "(48 \<le> m \<and> m \<le> 57) \<or> (97 \<le> m \<and> m \<le> 102) \<or> (65 \<le> m \<and> m \<le> 70)"
    by (auto simp: hex_val_def Let_def m_def split: if_splits)
  then have "m = 48 \<or> m = 49 \<or> m = 50 \<or> m = 51 \<or> m = 52 \<or> m = 53 \<or> m = 54 \<or> m = 55 \<or>
      m = 56 \<or> m = 57 \<or> m = 97 \<or> m = 98 \<or> m = 99 \<or> m = 100 \<or> m = 101 \<or> m = 102 \<or>
      m = 65 \<or> m = 66 \<or> m = 67 \<or> m = 68 \<or> m = 69 \<or> m = 70"
    by arith
  then show ?thesis
    using assms unfolding c
    by (elim disjE) (auto simp: hex_val_def hexdigit_def lower_char_def char_of_hex_codes)
qed

lemma unat_byte_less: "unat (b :: byte) < 256"
  using unsigned_less [of b, where 'a = nat] by simp

lemma hex_byte_of_nibbles:
  assumes "t < 16" "b < 16"
  shows "hex_byte (of_nat (16 * t + b)) = [hexdigit t, hexdigit b]"
proof -
  have "16 * t + b < 256" using assms by arith
  then have "unat (of_nat (16 * t + b) :: byte) = 16 * t + b"
    by (simp only: unat_of_nat) simp
  then show ?thesis using assms unfolding hex_byte_def by simp
qed


lemma fromhex_hex_digits:
  "list_all is_hex_digit t \<Longrightarrow> even (length t) \<Longrightarrow>
     \<exists>bs. fromhex t = Inr bs \<and> bytes_hex bs = str_lower t \<and> 2 * length bs = length t"
proof (induction t rule: fromhex.induct)
  case 1
  then show ?case by (simp add: bytes_hex_def str_lower_def)
next
  case (2 c)
  then show ?case by simp
next
  case (3 c d cs)
  from "3.prems" obtain t b where tb: "hex_val c = Some t" "hex_val d = Some b"
    by (auto simp: is_hex_digit_def)
  have ns: "\<not> is_space c" using tb(1) by (rule hex_val_not_space)
  from "3.prems" have "list_all is_hex_digit cs" "even (length cs)" by simp_all
  with "3.IH"(2) [OF ns refl tb(1) tb(2)] obtain bs where
    bs: "fromhex cs = Inr bs" "bytes_hex bs = str_lower cs" "2 * length bs = length cs"
    by auto
  have "hex_byte (of_nat (16 * t + b)) = [lower_char c, lower_char d]"
    using tb hex_byte_of_nibbles [of t b] by (simp only: hex_val_lt16 hex_val_lower)
  then show ?case using ns tb bs
    by (simp add: bytes_hex_def str_lower_def del: of_nat_add of_nat_mult)
qed

lemma hex_byte_chars:
  "x \<in> set (hex_byte b) \<Longrightarrow> \<exists>n<16. x = hexdigit n"
proof -
  assume "x \<in> set (hex_byte b)"
  then have "x = hexdigit (unat b div 16) \<or> x = hexdigit (unat b mod 16)"
    by (auto simp: hex_byte_def)
  moreover have "unat b div 16 < 16" using unat_byte_less [of b] by arith
  moreover have "unat b mod 16 < 16" by simp
  ultimately show ?thesis by blast
qed

lemma bytes_hex_chars:
  "x \<in> set (bytes_hex bs) \<Longrightarrow> \<exists>n<16. x = hexdigit n"
  by (auto simp: bytes_hex_def dest: hex_byte_chars)

lemma remove_char_hex:
  assumes "set xs \<subseteq> set (bytes_hex bs)" "c = CHR '':'' \<or> c = CHR ''-''"
  shows "remove_char c xs = xs"
  unfolding remove_char_def
proof (rule filter_True, rule ballI)
  fix x assume "x \<in> set xs"
  then obtain n where "n < 16" "x = hexdigit n"
    using assms(1) bytes_hex_chars by blast
  then show "x \<noteq> c" using assms(2) hexdigit_not_sep [of n] by auto
qed

lemma str_lower_bytes_hex: "str_lower (bytes_hex bs) = bytes_hex bs"
  unfolding str_lower_def
  by (rule map_idI) (auto dest!: bytes_hex_chars simp: hexdigit_lower)

lemma slices_join:
  "take 8 h @ take 4 (drop 8 h) @ take 4 (drop 12 h) @ take 4 (drop 16 h) @ drop 20 h = h"
proof -
  have a: "take 4 (drop 16 h) @ drop 20 h = drop 16 h"
    using append_take_drop_id [of 4 "drop 16 h"] by simp
  have b: "take 4 (drop 12 h) @ drop 16 h = drop 12 h"
    using append_take_drop_id [of 4 "drop 12 h"] by simp
  have c: "take 4 (drop 8 h) @ drop 12 h = drop 8 h"
    using append_take_drop_id [of 4 "drop 8 h"] by simp
  show ?thesis by (simp add: a b c)
qed

lemma remove_char_append: "remove_char c (xs @ ys) = remove_char c xs @ remove_char c ys"
  by (simp add: remove_char_def)

lemma hex_slices:
  "set (take 8 h) \<subseteq> set h" "set (take 4 (drop 8 h)) \<subseteq> set h"
    "set (take 4 (drop 12 h)) \<subseteq> set h" "set (take 4 (drop 16 h)) \<subseteq> set h"
    "set (drop 20 h) \<subseteq> set h"
  by (meson set_take_subset set_drop_subset subset_trans)+

lemma as_string_no_colon: "remove_char (CHR '':'') (as_string u) = as_string u"
  unfolding as_string_def Let_def remove_char_append
  by (simp add: remove_char_hex [OF hex_slices(1)] remove_char_hex [OF hex_slices(2)]
      remove_char_hex [OF hex_slices(3)] remove_char_hex [OF hex_slices(4)]
      remove_char_hex [OF hex_slices(5)]) (simp add: remove_char_def)

lemma normalize_as_string: "normalize_uuid (as_string u) = bytes_hex (uuid_value u)"
proof -
  have "remove_char (CHR ''-'') (as_string u) = bytes_hex (uuid_value u)"
    unfolding as_string_def Let_def remove_char_append
    by (simp add: remove_char_hex [OF hex_slices(1)] remove_char_hex [OF hex_slices(2)]
      remove_char_hex [OF hex_slices(3)] remove_char_hex [OF hex_slices(4)]
      remove_char_hex [OF hex_slices(5)] slices_join) (simp add: remove_char_def slices_join)
  then show ?thesis by (simp add: normalize_uuid_def as_string_no_colon)
qed

lemma str_lower_append: "str_lower (xs @ ys) = str_lower xs @ str_lower ys"
  by (simp add: str_lower_def)

lemma str_lower_hex:
  assumes "set xs \<subseteq> set (bytes_hex bs)"
  shows "str_lower xs = xs"
  unfolding str_lower_def
proof (rule map_idI)
  fix x assume "x \<in> set xs"
  then obtain n where "n < 16" "x = hexdigit n"
    using assms bytes_hex_chars by blast
  then show "lower_char x = x" by (simp add: hexdigit_lower)
qed

lemma str_lower_as_string: "str_lower (as_string u) = as_string u"
  unfolding as_string_def Let_def str_lower_append
  by (simp add: str_lower_hex [OF hex_slices(1)] str_lower_hex [OF hex_slices(2)]
      str_lower_hex [OF hex_slices(3)] str_lower_hex [OF hex_slices(4)]
      str_lower_hex [OF hex_slices(5)]) (simp add: str_lower_def lower_char_def)

lemma int_from_bytes_snoc: "int_from_bytes (bs @ [b]) = int_from_bytes bs * 256 + uint b"
  by (simp add: int_from_bytes_def)

lemma int_from_bytes_big_endian:
  "int_from_bytes bs = (\<Sum>i<length bs. uint (bs ! i) * 256 ^ (length bs - Suc i))"
proof (induction bs rule: rev_induct)
  case Nil
  then show ?case by (simp add: int_from_bytes_def)
next
  case (snoc b bs)
  have "(\<Sum>i<length bs. uint ((bs @ [b]) ! i) * 256 ^ (length (bs @ [b]) - Suc i)) =
        (\<Sum>i<length bs. uint (bs ! i) * 256 ^ (length bs - Suc i) * 256)"
    by (rule sum.cong) (auto simp: nth_append Suc_diff_Suc simp flip: power_Suc2)
  also have "\<dots> = int_from_bytes bs * 256"
    by (simp add: snoc.IH sum_distrib_right)
  finally show ?case
    by (simp add: int_from_bytes_snoc)
qed

lemma length_be_bytes: "length (be_bytes k n) = k"
  by (induction k arbitrary: n) simp_all

lemma int_from_be_bytes:
  "0 \<le> n \<Longrightarrow> n < 256 ^ k \<Longrightarrow> int_from_bytes (be_bytes k n) = n"
proof (induction k arbitrary: n)
  case 0
  then show ?case by (simp add: int_from_bytes_def)
next
  case (Suc k)
  have "uint (word_of_int (n mod 256) :: byte) = n mod 256"
    by (simp add: uint_word_of_int)
  moreover have "int_from_bytes (be_bytes k (n div 256)) = n div 256"
    using Suc.prems by (intro Suc.IH) (auto simp: pos_imp_zdiv_nonneg_iff div_less_iff_less_mult)
  ultimately show ?case
    by (simp add: int_from_bytes_snoc)
qed

lemma as_string_short:
  assumes "length (uuid_value u) = 2"
  shows "as_string u = bytes_hex (uuid_value u) @ ''----''"
proof -
  obtain a b where ab: "uuid_value u = [a, b]"
    using assms by (auto simp: length_Suc_conv numeral_2_eq_2)
  show ?thesis
    by (simp add: as_string_def ab bytes_hex_def hex_byte_def)
qed

lemma from_int_length:
  "from_int n len nm = Inr u \<Longrightarrow> length (uuid_value u) = UuidLength_int len"
  by (auto simp: from_int_def int_to_bytes_def length_be_bytes split: if_splits)

lemma bytes_hex_lower_digits: "list_all is_lower_hex_digit (bytes_hex bs)"
proof -
  have "\<And>n. n < 16 \<Longrightarrow> is_lower_hex_digit (hexdigit n)"
    using hexdigit_props by (simp add: hexdigit_ok_def)
  then show ?thesis
    by (auto simp: list_all_iff dest!: bytes_hex_chars)
qed

lemma length_bytes_hex: "length (bytes_hex bs) = 2 * length bs"
  by (induction bs) (simp_all add: bytes_hex_def hex_byte_def)

section \<open>Rendering of short UUIDs\<close>

text \<open>
  C10. For every 2-byte UUID \<open>u\<close> (such as one built by \<^verbatim>\<open>from_int(n, 2)\<close>),
  \<^verbatim>\<open>u.as_string\<close> is the four lower-case hex digits of the bytes of \<open>u\<close> followed
  by four hyphens: the slices after the first are empty, and the value is not
  extended to 128 bits.
\<close>

theorem as_string_two_bytes:
  "length (uuid_value u) = 2 \<Longrightarrow>
     as_string u = bytes_hex (uuid_value u) @ ''----'' \<and>
     length (bytes_hex (uuid_value u)) = 4 \<and>
     list_all is_lower_hex_digit (bytes_hex (uuid_value u))"
  by (simp add: as_string_short length_bytes_hex bytes_hex_lower_digits)

text \<open>The UUID \<^verbatim>\<open>from_int(0x2902, 2)\<close> renders as \<^verbatim>\<open>2902----\<close>.\<close>

theorem as_string_two_bytes_witness:
  "from_int 0x2902 BIT_8 [] = Inr uuid_2902 \<and> length (uuid_value uuid_2902) = 2 \<and>
   as_string uuid_2902 = ''2902----''"
proof -
  have l: "length (uuid_value uuid_2902) = 2"
    by (simp add: uuid_2902_def)
  have "bytes_hex (uuid_value uuid_2902) = ''2902''"
    by (simp add: uuid_2902_def bytes_hex_def hex_byte_def hexdigit_def)
  moreover have "from_int 0x2902 BIT_8 [] = Inr uuid_2902"
    by (simp add: from_int_def int_to_bytes_def uuid_2902_def numeral_2_eq_2)
  ultimately show ?thesis
    using l as_string_two_bytes [OF l] by simp
qed

section \<open>Round trip through the string form\<close>

text \<open>
  C6. For every valid 128-bit string \<open>s\<close> (32 hex digits, with any number of colons
  and hyphens anywhere), \<^verbatim>\<open>UUID.from_string(s)\<close> returns a UUID of 16 bytes, and
  its \<^verbatim>\<open>as_string\<close>, with the separators stripped and lower-cased, is the
  normalized input lower-cased: the hex digits of the same 16 bytes.
\<close>

theorem from_string_round_trip:
  assumes "valid_uuid128_string s"
  shows "\<exists>u. from_string s nm = Inr u \<and> length (uuid_value u) = 16 \<and>
           bytes_hex (uuid_value u) = str_lower (normalize_uuid s) \<and>
           str_lower (normalize_uuid (as_string u)) = str_lower (normalize_uuid s)"
proof -
  from assms have "list_all is_hex_digit (normalize_uuid s)" "even (length (normalize_uuid s))"
    by (simp_all add: valid_uuid128_string_def)
  then obtain bs where bs: "fromhex (normalize_uuid s) = Inr bs"
    "bytes_hex bs = str_lower (normalize_uuid s)" "2 * length bs = length (normalize_uuid s)"
    using fromhex_hex_digits by blast
  from bs(3) assms have "length bs = 16"
    by (simp add: valid_uuid128_string_def)
  then show ?thesis using bs
    by (simp add: from_string_def normalize_as_string str_lower_bytes_hex)
qed

text \<open>A string with mixed separators and an upper-case digit.\<close>

theorem from_string_round_trip_witness:
  "valid_uuid128_string ''0000180F-0000:1000-8000-00805f9b34fb'' \<and>
   (\<exists>u. from_string ''0000180F-0000:1000-8000-00805f9b34fb'' [] = Inr u \<and>
        as_string u = ''0000180f-0000-1000-8000-00805f9b34fb'')"
proof -
  have v: "valid_uuid128_string ''0000180F-0000:1000-8000-00805f9b34fb''"
    by code_simp
  have n: "str_lower (normalize_uuid ''0000180F-0000:1000-8000-00805f9b34fb'') = ''0000180f00001000800000805f9b34fb''"
    by code_simp
  from from_string_round_trip [OF v, of "[]"] obtain u where
    u: "from_string ''0000180F-0000:1000-8000-00805f9b34fb'' [] = Inr u"
       "bytes_hex (uuid_value u) = str_lower (normalize_uuid ''0000180F-0000:1000-8000-00805f9b34fb'')"
    by blast
  have "as_string u = ''0000180f-0000-1000-8000-00805f9b34fb''"
    unfolding as_string_def u(2) n by simp
  with v u(1) show ?thesis by blast
qed

section \<open>Equality across representations\<close>

text \<open>
  The comparisons with a UUID, an integer and a byte sequence, and what the comparison
  with a string computes: the rendering holds no colon and is in lower case already,
  so the string is compared, lower-cased, with \<^verbatim>\<open>as_string\<close> and its hyphens.
  Any other right-hand side is unequal.
\<close>

lemma UUID_eq_other_forms:
  "UUID_eq a (ObjUUID b) = (uuid_value a = uuid_value b) \<and>
   UUID_eq a (ObjInt n) =
     ((\<Sum>i<length (uuid_value a).
         uint (uuid_value a ! i) * 256 ^ (length (uuid_value a) - Suc i)) = n) \<and>
   UUID_eq a (ObjBytes bs) = (uuid_value a = bs) \<and>
   UUID_eq a (ObjStr s) = (as_string a = str_lower s) \<and>
   \<not> UUID_eq a ObjOther \<and>
   from_int 0x2902 BIT_8 [] = Inr uuid_2902 \<and>
   UUID_eq uuid_2902 (ObjInt 0x2902) \<and>
   UUID_eq uuid_2902 (ObjBytes [0x29, 0x02])"
proof -
  have "from_int 0x2902 BIT_8 [] = Inr uuid_2902"
    by (simp add: from_int_def int_to_bytes_def uuid_2902_def numeral_2_eq_2)
  moreover have "UUID_eq uuid_2902 (ObjInt 0x2902)"
    by (simp add: uuid_2902_def as_int_def int_from_bytes_def)
  moreover have "UUID_eq uuid_2902 (ObjBytes [0x29, 0x02])"
    by (simp add: uuid_2902_def)
  ultimately show ?thesis
    by (simp add: as_int_def int_from_bytes_big_endian as_string_no_colon str_lower_as_string)
qed

text \<open>
  C1. The claim: \<^verbatim>\<open>a == b\<close> holds when \<open>b\<close> is a UUID with the bytes of \<open>a\<close>,
  the integer that is the big-endian value of those bytes, a byte sequence equal to
  them, or a string that has the hex digits of \<open>a\<close> once both sides are stripped of
  colons and hyphens and lower-cased; in particular \<^verbatim>\<open>UUID.from_int(0x2902, 2)\<close>
  equals \<^verbatim>\<open>0x2902\<close>, \<^verbatim>\<open>"2902"\<close> and the bytes \<^verbatim>\<open>[0x29, 0x02]\<close>.
  The code does not do this for strings. \<^verbatim>\<open>__eq__\<close> removes colons from its own
  rendering, which has hyphens and never a colon, and removes nothing from the string,
  where \<^verbatim>\<open>normalize\<close> removes both separators. So
  \<^verbatim>\<open>UUID.from_int(0x2902, 2) == "2902"\<close> is false though the digits agree, and a
  16-byte UUID is unequal to its own digits separated by colons.
\<close>

theorem UUID_eq_string_not_normalized:
  "from_int 0x2902 BIT_8 [] = Inr uuid_2902 \<and>
   str_lower (normalize_uuid (as_string uuid_2902)) = str_lower (normalize_uuid ''2902'') \<and>
   \<not> UUID_eq uuid_2902 (ObjStr ''2902'') \<and>
   str_lower (normalize_uuid (as_string S_BATTERY)) =
     str_lower (normalize_uuid ''0000180F:0000:1000:8000:00805F9B34FB'') \<and>
   \<not> UUID_eq S_BATTERY (ObjStr ''0000180F:0000:1000:8000:00805F9B34FB'')"
  by code_simp

section \<open>Characteristic properties\<close>

lemma flag_bit: "(2 ^ k AND (p::int) = 2 ^ k) = bit p k"
proof
  assume "2 ^ k AND p = 2 ^ k"
  then have "bit (2 ^ k AND p) k"
    by (simp add: bit_exp_iff)
  then show "bit p k"
    by (simp add: bit_and_iff)
next
  assume p: "bit p k"
  show "2 ^ k AND p = 2 ^ k"
    by (rule bit_eqI) (auto simp: bit_and_iff bit_exp_iff p)
qed

text \<open>
  C4. For every characteristic \<open>c\<close>, \<^verbatim>\<open>c.is_readable\<close> is true if and only if
  the NOTIFY flag (bit \<^verbatim>\<open>0x10\<close>, bit number 4) is set in the property bitmask of
  \<open>c\<close>. It does not test the READ flag (bit \<^verbatim>\<open>0x02\<close>): it is true for a
  characteristic with NOTIFY alone and false for one with READ alone.
\<close>

theorem is_readable_tests_notify:
  "is_readable c = bit (c_props c) 4 \<and>
   is_readable c = (NOTIFY AND c_props c = NOTIFY) \<and>
   is_readable (c\<lparr>c_props := NOTIFY\<rparr>) \<and>
   \<not> is_readable (c\<lparr>c_props := READ\<rparr>)"
  using flag_bit [of 4 "c_props c"]
  by (simp add: is_readable_def flag_in_def NOTIFY_def READ_def)

section \<open>The registry is a namespace\<close>

text \<open>
  C9. Every attempt to instantiate the UUIDs registry fails with the exception
  "This class shall not be instantiated" (the ConstructionError of the specification);
  it never produces an instance.
\<close>

theorem UUIDs_never_instantiated:
  "UUIDs_call cls = Inl (PyException ''This class shall not be instantiated'') \<and>
   (\<forall>obj. UUIDs_call cls \<noteq> Inr obj)"
  by (simp add: UUIDs_call_def UUIDs_new_def)

section \<open>The CCCD handle\<close>

lemma dict_get_absent:
  "\<forall>kv \<in> set kvs. uuid_value (fst kv) \<noteq> uuid_value k \<Longrightarrow> dict_get kvs k = Inl KeyError"
  by (induction kvs) auto

lemma dict_get_present:
  "dict_inv kvs \<Longrightarrow> (k', v) \<in> set kvs \<Longrightarrow> uuid_value k' = uuid_value k \<Longrightarrow>
     dict_get kvs k = Inr v"
proof (induction kvs)
  case Nil
  then show ?case by simp
next
  case (Cons kv kvs)
  obtain k0 v0 where kv: "kv = (k0, v0)" by (cases kv)
  show ?case
  proof (cases "uuid_value k0 = uuid_value k")
    case True
    have "(k', v) = (k0, v0)"
    proof (rule ccontr)
      assume "(k', v) \<noteq> (k0, v0)"
      with Cons.prems(2) kv have "(k', v) \<in> set kvs" by auto
      then have "uuid_value k' \<in> set (map (\<lambda>kv. uuid_value (fst kv)) kvs)" by force
      with Cons.prems(1,3) True kv show False by (simp add: dict_inv_def)
    qed
    with True kv show ?thesis by simp
  next
    case False
    with Cons.prems kv have "(k', v) \<in> set kvs" "dict_inv kvs"
      by (auto simp: dict_inv_def)
    with Cons.IH Cons.prems(3) False kv show ?thesis by simp
  qed
qed

lemma cccd_key: "from_int 0x2902 BIT_8 [] = Inr uuid_2902"
  by (simp add: from_int_def int_to_bytes_def uuid_2902_def numeral_2_eq_2)

lemma cccd_handle_by_key:
  "cccd_handle c =
     (case dict_get (c_descriptors c) uuid_2902 of Inl e \<Rightarrow> Inl e | Inr d \<Rightarrow> Inr (d_handle d))"
  by (simp add: cccd_handle_def cccd_key)

text \<open>
  When every descriptor is stored under its own UUID, the lookup by key is a lookup by
  the UUID of the descriptor.
\<close>

lemma cccd_handle_well_keyed:
  assumes "dict_inv (c_descriptors c)" and "keyed_by_uuid (c_descriptors c)"
  shows "((\<forall>kd \<in> set (c_descriptors c). uuid_value (d_uuid (snd kd)) \<noteq> cccd_bytes) \<longrightarrow>
            cccd_handle c = Inl KeyError) \<and>
         (\<forall>kd \<in> set (c_descriptors c). uuid_value (d_uuid (snd kd)) = cccd_bytes \<longrightarrow>
            cccd_handle c = Inr (d_handle (snd kd)))"
proof (intro conjI impI ballI)
  assume "\<forall>kd \<in> set (c_descriptors c). uuid_value (d_uuid (snd kd)) \<noteq> cccd_bytes"
  with assms(2) have "\<forall>kd \<in> set (c_descriptors c). uuid_value (fst kd) \<noteq> uuid_value uuid_2902"
    by (auto simp: keyed_by_uuid_def list_all_iff cccd_bytes_def uuid_2902_def)
  then show "cccd_handle c = Inl KeyError"
    by (simp add: cccd_handle_by_key dict_get_absent)
next
  fix kd assume kd: "kd \<in> set (c_descriptors c)" "uuid_value (d_uuid (snd kd)) = cccd_bytes"
  with assms(2) have "uuid_value (fst kd) = uuid_value uuid_2902"
    by (auto simp: keyed_by_uuid_def list_all_iff cccd_bytes_def uuid_2902_def)
  with assms(1) kd(1) have "dict_get (c_descriptors c) uuid_2902 = Inr (snd kd)"
    by (intro dict_get_present [of _ "fst kd"]) simp_all
  then show "cccd_handle c = Inr (d_handle (snd kd))"
    by (simp add: cccd_handle_by_key)
qed

text \<open>
  C7 (as amended). \<^verbatim>\<open>c.cccd_handle\<close> looks the descriptor mapping of \<open>c\<close> up
  by key: it fails with \<^verbatim>\<open>KeyError\<close> (the NotFound of the specification) when no
  key of the mapping is the 2-byte UUID \<^verbatim>\<open>0x2902\<close>, and returns the handle of
  the descriptor stored under that key when there is one. When every descriptor of
  \<open>c\<close> is stored under its own UUID, that is: it fails when no descriptor of \<open>c\<close>
  has the UUID \<^verbatim>\<open>0x2902\<close>, and returns exactly the handle of that descriptor when
  one is present.
\<close>

theorem cccd_handle_looks_up_key:
  "((\<forall>kd \<in> set (c_descriptors c). uuid_value (fst kd) \<noteq> cccd_bytes) \<longrightarrow>
      cccd_handle c = Inl KeyError) \<and>
   (dict_inv (c_descriptors c) \<longrightarrow>
      (\<forall>kd \<in> set (c_descriptors c). uuid_value (fst kd) = cccd_bytes \<longrightarrow>
         cccd_handle c = Inr (d_handle (snd kd)))) \<and>
   (dict_inv (c_descriptors c) \<and> keyed_by_uuid (c_descriptors c) \<longrightarrow>
      ((\<forall>kd \<in> set (c_descriptors c). uuid_value (d_uuid (snd kd)) \<noteq> cccd_bytes) \<longrightarrow>
         cccd_handle c = Inl KeyError) \<and>
      (\<forall>kd \<in> set (c_descriptors c). uuid_value (d_uuid (snd kd)) = cccd_bytes \<longrightarrow>
         cccd_handle c = Inr (d_handle (snd kd))))"
proof (intro conjI impI ballI)
  assume "\<forall>kd \<in> set (c_descriptors c). uuid_value (fst kd) \<noteq> cccd_bytes"
  then have "\<forall>kd \<in> set (c_descriptors c). uuid_value (fst kd) \<noteq> uuid_value uuid_2902"
    by (simp add: cccd_bytes_def uuid_2902_def)
  then show "cccd_handle c = Inl KeyError"
    by (simp add: cccd_handle_by_key dict_get_absent)
next
  fix kd
  assume inv: "dict_inv (c_descriptors c)" and kd: "kd \<in> set (c_descriptors c)"
    and key: "uuid_value (fst kd) = cccd_bytes"
  from key have "uuid_value (fst kd) = uuid_value uuid_2902"
    by (simp add: cccd_bytes_def uuid_2902_def)
  with inv kd have "dict_get (c_descriptors c) uuid_2902 = Inr (snd kd)"
    by (intro dict_get_present [of _ "fst kd"]) simp_all
  then show "cccd_handle c = Inr (d_handle (snd kd))"
    by (simp add: cccd_handle_by_key)
next
  assume "dict_inv (c_descriptors c) \<and> keyed_by_uuid (c_descriptors c)"
    and "\<forall>kd \<in> set (c_descriptors c). uuid_value (d_uuid (snd kd)) \<noteq> cccd_bytes"
  then show "cccd_handle c = Inl KeyError"
    using cccd_handle_well_keyed [of c] by blast
next
  fix kd
  assume "dict_inv (c_descriptors c) \<and> keyed_by_uuid (c_descriptors c)"
    and "kd \<in> set (c_descriptors c)" and "uuid_value (d_uuid (snd kd)) = cccd_bytes"
  then show "cccd_handle c = Inr (d_handle (snd kd))"
    using cccd_handle_well_keyed [of c] by blast
qed

text \<open>
  The Battery Level characteristic has the descriptor at handle \<^verbatim>\<open>0x13\<close>; the
  Model Number characteristic has no descriptor.
\<close>

theorem cccd_handle_looks_up_key_witness:
  "dict_inv (c_descriptors battery_level) \<and> keyed_by_uuid (c_descriptors battery_level) \<and>
   (uuid_2902, battery_cccd) \<in> set (c_descriptors battery_level) \<and>
   uuid_value uuid_2902 = cccd_bytes \<and> uuid_value (d_uuid battery_cccd) = cccd_bytes \<and>
   cccd_handle battery_level = Inr 0x13 \<and>
   c_descriptors model_number = [] \<and>
   cccd_handle model_number = Inl KeyError"
proof -
  have a: "dict_inv (c_descriptors battery_level)" "keyed_by_uuid (c_descriptors battery_level)"
    and m: "(uuid_2902, battery_cccd) \<in> set (c_descriptors battery_level)"
    and k: "uuid_value (fst (uuid_2902, battery_cccd)) = cccd_bytes"
    and u: "uuid_value (d_uuid (snd (uuid_2902, battery_cccd))) = cccd_bytes"
    by (simp_all add: battery_level_def Characteristic_post_init_def dict_inv_def
        keyed_by_uuid_def battery_cccd_def cccd_bytes_def uuid_2902_def)
  have e: "c_descriptors model_number = []"
    by (simp add: model_number_def Characteristic_post_init_def)
  then have n: "\<forall>kd \<in> set (c_descriptors model_number). uuid_value (fst kd) \<noteq> cccd_bytes"
    by simp
  from cccd_handle_looks_up_key [of battery_level] a(1) m k
  have "cccd_handle battery_level = Inr (d_handle (snd (uuid_2902, battery_cccd)))"
    by blast
  moreover from cccd_handle_looks_up_key [of model_number] n
  have "cccd_handle model_number = Inl KeyError"
    by blast
  ultimately show ?thesis
    using a m k u e by (simp add: battery_cccd_def)
qed

text \<open>
  As the claim states it, the result follows the UUIDs of the descriptors. A descriptor
  with UUID \<^verbatim>\<open>0x2901\<close> stored under the key \<^verbatim>\<open>0x2902\<close> has its handle
  returned though no descriptor has the UUID \<^verbatim>\<open>0x2902\<close>, and the CCCD stored
  under the key \<^verbatim>\<open>0x2901\<close> is not found.
\<close>

theorem cccd_handle_miskeyed_counterexample:
  "map (\<lambda>kd. uuid_value (d_uuid (snd kd))) (c_descriptors miskeyed_characteristic) = [[0x29, 0x01]] \<and>
   cccd_handle miskeyed_characteristic = Inr 0x14 \<and>
   map (\<lambda>kd. (uuid_value (d_uuid (snd kd)), d_handle (snd kd)))
     (c_descriptors hidden_cccd_characteristic) = [(cccd_bytes, 0x13)] \<and>
   cccd_handle hidden_cccd_characteristic = Inl KeyError"
  by (simp add: miskeyed_characteristic_def hidden_cccd_characteristic_def user_descr_def
      battery_cccd_def uuid_2901_def uuid_2902_def cccd_bytes_def cccd_handle_by_key)

section \<open>Lookups between handles and UUIDs\<close>

lemma scan_chars_find: "scan_chars P cs = find P (map snd cs)"
  by (induction cs) auto

lemma find_append_first:
  "find P (xs @ ys) = (case find P xs of Some x \<Rightarrow> Some x | None \<Rightarrow> find P ys)"
  by (induction xs) auto

lemma scan_services_find: "scan_services P ss = find P (CharacteristicView_values ss)"
proof (induction ss)
  case Nil
  then show ?case by (simp add: CharacteristicView_values_def)
next
  case (Cons ks ss)
  obtain k s where ks: "ks = (k, s)" by (cases ks)
  have "CharacteristicView_values (ks # ss) = map snd (s_chars s) @ CharacteristicView_values ss"
    by (simp add: CharacteristicView_values_def ks)
  with Cons.IH show ?case
    by (simp add: ks scan_chars_find find_append_first split: option.splits)
qed

lemma find_distinct_key:
  "distinct (map f xs) \<Longrightarrow> x \<in> set xs \<Longrightarrow> find (\<lambda>y. f y = f x) xs = Some x"
  by (induction xs) force+

lemma char_in_values:
  "(ks, S) \<in> set db \<Longrightarrow> (kc, C) \<in> set (s_chars S) \<Longrightarrow> C \<in> set (CharacteristicView_values db)"
  by (force simp: CharacteristicView_values_def)

text \<open>
  C5. For every table \<open>db\<close>, every service \<open>S\<close> of \<open>db\<close> and every
  characteristic \<open>C\<close> of \<open>S\<close>, when value handles and characteristic UUIDs are
  unique across the table: \<^verbatim>\<open>db.handle2uuid(C.handle)\<close> returns the UUID of
  \<open>C\<close> (which \<^verbatim>\<open>==\<close> accepts), and \<^verbatim>\<open>db.uuid2handle(C.uuid)\<close> returns
  the value handle of \<open>C\<close>.
\<close>

theorem handle_uuid_lookups_agree:
  assumes "(ks, S) \<in> set db" and "(kc, C) \<in> set (s_chars S)"
    and "unique_handles db" and "unique_uuids db"
  shows "handle2uuid db (c_handle C) = Inr (c_uuid C) \<and>
         UUID_eq (c_uuid C) (ObjUUID (c_uuid C)) \<and>
         uuid2handle db (c_uuid C) = Inr (c_handle C)"
proof -
  have C: "C \<in> set (CharacteristicView_values db)"
    using assms(1,2) by (rule char_in_values)
  have "scan_services (\<lambda>c. c_handle c = c_handle C) db = Some C"
    using assms(3) C by (simp add: scan_services_find unique_handles_def find_distinct_key)
  moreover have "scan_services (\<lambda>c. UUID_eq (c_uuid c) (ObjUUID (c_uuid C))) db = Some C"
    using assms(4) C
      find_distinct_key [of "\<lambda>c. uuid_value (c_uuid c)" "CharacteristicView_values db" C]
    by (simp add: scan_services_find unique_uuids_def)
  ultimately show ?thesis
    by (simp add: handle2uuid_def uuid2handle_def CharacteristicView_getitem_def)
qed

lemma two_service_db_values:
  "CharacteristicView_values two_service_db = [model_number, battery_level]"
  by (simp add: CharacteristicView_values_def two_service_db_def dev_info_service_def
      battery_service_def Service_post_init_def)

text \<open>The Battery Level characteristic, in the second of two services.\<close>

theorem handle_uuid_lookups_agree_witness:
  "(S_BATTERY, battery_service) \<in> set two_service_db \<and>
   (BATT_LEVEL, battery_level) \<in> set (s_chars battery_service) \<and>
   unique_handles two_service_db \<and> unique_uuids two_service_db \<and>
   handle2uuid two_service_db 0x12 = Inr BATT_LEVEL \<and>
   uuid2handle two_service_db BATT_LEVEL = Inr 0x12"
proof -
  have a: "(S_BATTERY, battery_service) \<in> set two_service_db"
    by (simp add: two_service_db_def)
  have b: "(BATT_LEVEL, battery_level) \<in> set (s_chars battery_service)"
    by (simp add: battery_service_def Service_post_init_def)
  have c: "unique_handles two_service_db"
    by (simp add: unique_handles_def two_service_db_values model_number_def battery_level_def
        Characteristic_post_init_def)
  have d: "unique_uuids two_service_db"
    by (simp add: unique_uuids_def two_service_db_values model_number_def battery_level_def
        Characteristic_post_init_def inherit_name_def INF_MODEL_NUM_def BATT_LEVEL_def)
  have e: "c_handle battery_level = 0x12" "c_uuid battery_level = BATT_LEVEL"
    by (simp_all add: battery_level_def Characteristic_post_init_def inherit_name_def BATT_LEVEL_def)
  show ?thesis
    using a b c d handle_uuid_lookups_agree [OF a b c d] by (simp add: e)
qed

section \<open>Rows of the CSV dump\<close>

text \<open>Rows are only ever appended: what is written stays.\<close>

lemma dump_descriptors_extends: "\<exists>r. fst (dump_descriptors ds w) = w @ r"
proof (induction ds arbitrary: w)
  case Nil
  then show ?case by simp
next
  case (Cons kd ds)
  obtain k d where kd: "kd = (k, d)" by (cases kd)
  show ?case
  proof (cases "descriptor_row d")
    case (Inl e)
    then show ?thesis by (simp add: kd)
  next
    case (Inr r)
    from Cons.IH [of "w @ [r]"] obtain r' where "fst (dump_descriptors ds (w @ [r])) = (w @ [r]) @ r'"
      by blast
    with Inr show ?thesis by (simp add: kd)
  qed
qed

lemma dump_chars_extends: "\<exists>r. fst (dump_chars cs w) = w @ r"
proof (induction cs arbitrary: w)
  case Nil
  then show ?case by simp
next
  case (Cons kc cs)
  obtain k c where kc: "kc = (k, c)" by (cases kc)
  define w1 where "w1 = w @ [declaration_row c] @ [value_row c]"
  obtain w2 e where res: "dump_descriptors (c_descriptors c) w1 = (w2, e)"
    by (cases "dump_descriptors (c_descriptors c) w1")
  from dump_descriptors_extends [of "c_descriptors c" w1] res obtain r where w2: "w2 = w1 @ r"
    by auto
  show ?case
  proof (cases e)
    case None
    from Cons.IH [of w2] obtain r' where "fst (dump_chars cs w2) = w2 @ r'" by blast
    with None res w2 show ?thesis
      by (simp add: kc w1_def [symmetric]) (simp add: w1_def)
  next
    case (Some err)
    with res w2 show ?thesis
      by (simp add: kc w1_def [symmetric]) (simp add: w1_def)
  qed
qed

lemma dump_services_extends: "\<exists>r. fst (dump_services ss w) = w @ r"
proof (induction ss arbitrary: w)
  case Nil
  then show ?case by simp
next
  case (Cons ks ss)
  obtain k s where ks: "ks = (k, s)" by (cases ks)
  define w1 where "w1 = w @ [service_row s]"
  obtain w2 e where res: "dump_chars (s_chars s) w1 = (w2, e)"
    by (cases "dump_chars (s_chars s) w1")
  from dump_chars_extends [of "s_chars s" w1] res obtain r where w2: "w2 = w1 @ r"
    by auto
  show ?case
  proof (cases e)
    case None
    from Cons.IH [of w2] obtain r' where "fst (dump_services ss w2) = w2 @ r'" by blast
    with None res w2 show ?thesis
      by (simp add: ks w1_def [symmetric]) (simp add: w1_def)
  next
    case (Some err)
    with res w2 show ?thesis
      by (simp add: ks w1_def [symmetric]) (simp add: w1_def)
  qed
qed

text \<open>
  C2. The first row \<^verbatim>\<open>dump_to_csv\<close> writes is the header row. The claim asks
  for the five strings handle, description, uuid, properties, value; in the code the
  third cell is the class object \<^verbatim>\<open>UUID\<close>, not the string, so the row written
  differs from the specified one for every table.
\<close>

theorem dump_to_csv_header_row:
  "hd (fst (dump_to_csv db)) = header_row \<and>
   header_row ! 2 = CellClassUUID \<and>
   specified_header ! 2 = CellStr ''uuid'' \<and>
   hd (fst (dump_to_csv db)) \<noteq> specified_header"
proof -
  obtain r where "fst (dump_to_csv db) = [header_row] @ r"
    using dump_services_extends [of db "[header_row]"] by (auto simp: dump_to_csv_def)
  then have "hd (fst (dump_to_csv db)) = header_row" by simp
  then show ?thesis by (simp add: header_row_def specified_header_def)
qed

text \<open>
  C3 (as amended). For a table holding exactly one service with one characteristic
  that has one descriptor whose UUID is a spec-defined number (the Battery scenario,
  with its CCCD \<^verbatim>\<open>0x2902\<close>), \<^verbatim>\<open>dump_to_csv\<close> writes exactly 4 body rows:
  the service row, the characteristic declaration row, the characteristic value row and
  the descriptor row; the value column of the service row is the string SERVICE.
\<close>

theorem dump_to_csv_single_descriptor:
  assumes "db = [(ks, s)]" and "s_chars s = [(kc, c)]" and "c_descriptors c = [(kd, d)]"
    and "SpecUuidNumber_of_int (as_int (d_uuid d)) = Inr m"
  shows "dump_to_csv db =
           ([header_row, service_row s, declaration_row c, value_row c,
             [CellInt (d_handle d), CellStr (SpecUuidNumber_name m),
              CellStr (as_string (d_uuid d)), CellStr [], cell_of_value (d_value d)]], None) \<and>
         length (body_rows (dump_to_csv db)) = 4 \<and>
         body_rows (dump_to_csv db) ! 0 ! 4 = CellStr ''SERVICE''"
  using assms
  by (simp add: dump_to_csv_def descriptor_row_def body_rows_def service_row_def)

text \<open>The Battery scenario is such a table.\<close>

lemma battery_shape:
  "s_chars battery_service = [(BATT_LEVEL, battery_level)]"
  "c_descriptors battery_level = [(uuid_2902, battery_cccd)]"
  "SpecUuidNumber_of_int (as_int (d_uuid battery_cccd)) = Inr CLIENT_CHAR_CONFIG"
  by (simp_all add: battery_service_def Service_post_init_def battery_level_def
      Characteristic_post_init_def battery_cccd_def uuid_2902_def as_int_def int_from_bytes_def
      SpecUuidNumber_of_int_def)

theorem dump_to_csv_single_descriptor_witness:
  "battery_db = [(S_BATTERY, battery_service)] \<and>
   s_chars battery_service = [(BATT_LEVEL, battery_level)] \<and>
   c_descriptors battery_level = [(uuid_2902, battery_cccd)] \<and>
   SpecUuidNumber_of_int (as_int (d_uuid battery_cccd)) = Inr CLIENT_CHAR_CONFIG \<and>
   length (body_rows (dump_to_csv battery_db)) = 4 \<and>
   body_rows (dump_to_csv battery_db) ! 0 ! 4 = CellStr ''SERVICE''"
proof -
  have "length (body_rows (dump_to_csv battery_db)) = 4 \<and>
        body_rows (dump_to_csv battery_db) ! 0 ! 4 = CellStr ''SERVICE''"
    using dump_to_csv_single_descriptor [OF battery_db_def battery_shape] by (rule conjunct2)
  then show ?thesis
    using battery_shape battery_db_def by blast
qed

text \<open>
  As the claim states it, the Battery scenario gives exactly 3 body rows. It gives 4:
  the declaration row is written as well.
\<close>

theorem dump_to_csv_three_rows_counterexample:
  "battery_db = [(S_BATTERY, battery_service)] \<and>
   map snd (s_chars battery_service) = [battery_level] \<and>
   map snd (c_descriptors battery_level) = [battery_cccd] \<and>
   length (body_rows (dump_to_csv battery_db)) \<noteq> 3"
  by (simp add: battery_db_def battery_shape dump_to_csv_def descriptor_row_def body_rows_def)

section \<open>The characteristic view is live\<close>

text \<open>Adding a characteristic changes a \<^verbatim>\<open>Service\<close> object and nothing else.\<close>

lemma add_characteristic_keeps [simp]:
  "service_dicts (add_characteristic h sa key c) = service_dicts h"
  "gattdb_objs (add_characteristic h sa key c) = gattdb_objs h"
  by (simp_all add: add_characteristic_def)

lemma add_characteristics_keeps:
  "service_dicts (add_characteristics adds h) = service_dicts h \<and>
   gattdb_objs (add_characteristics adds h) = gattdb_objs h"
  unfolding add_characteristics_def
  by (induction adds arbitrary: h) (auto simp: case_prod_unfold)

lemma GattDB_init_obj:
  "gattdb_objs (GattDB_init h a services) a =
     \<lparr>db_services = services, db_characteristics = \<lparr>view_db = a\<rparr>\<rparr>"
  "service_dicts (GattDB_init h a services) = service_dicts h"
  by (simp_all add: GattDB_init_def)

lemma view_len_sum:
  "view_len h v =
     sum_list (map (\<lambda>ksa. char_count h (snd ksa))
       (service_dicts h (db_services (gattdb_objs h (view_db v)))))"
  by (simp add: view_len_def CharacteristicView_len_def view_services_def char_count_def
      comp_def case_prod_unfold)

lemma scan_chars_sat: "scan_chars P cs = Some x \<Longrightarrow> P x"
  by (induction cs) (auto split: if_splits)

lemma scan_chars_dict_set:
  "P c \<Longrightarrow> \<exists>c'. scan_chars P (dict_set cs key c) = Some c' \<and> P c'"
  by (induction cs) auto

lemma scan_chars_dict_set_new:
  "P c \<Longrightarrow> scan_chars P cs = None \<Longrightarrow> scan_chars P (dict_set cs key c) = Some c"
  by (induction cs) (auto split: if_splits)

lemma scan_services_sat: "scan_services P ss = Some x \<Longrightarrow> P x"
  by (induction ss) (auto split: option.splits dest: scan_chars_sat)

lemma scan_services_some:
  "(k, s) \<in> set ss \<Longrightarrow> scan_chars P (s_chars s) = Some x \<Longrightarrow> \<exists>y. scan_services P ss = Some y"
  by (induction ss) (auto split: option.splits)

lemma scan_services_none:
  "scan_services P ss = None \<Longrightarrow> (k, s) \<in> set ss \<Longrightarrow> scan_chars P (s_chars s) = None"
  by (induction ss) (auto split: option.splits)

lemma scan_services_only:
  "(k, s) \<in> set ss \<Longrightarrow> scan_chars P (s_chars s) = Some c \<Longrightarrow>
   \<forall>ks \<in> set ss. scan_chars P (s_chars (snd ks)) = None \<or> scan_chars P (s_chars (snd ks)) = Some c \<Longrightarrow>
   scan_services P ss = Some c"
  by (induction ss) (auto split: option.splits)

text \<open>
  C8 (as amended). Take a \<^verbatim>\<open>GattDB\<close> built over a dictionary of services, its
  view, and any number of characteristics added to services afterwards. At that point
  the length of the view is the sum of the characteristic counts of the services in
  the mapping. When one more characteristic is added to a service of the mapping, the
  same view (nothing is rebuilt) has the new sum as its length, contains the UUID of
  the new characteristic, and returns for it a characteristic with that UUID; it
  returns the new one itself when no characteristic of the table had that UUID before
  the addition.
\<close>

theorem characteristic_view_is_live:
  assumes "h = add_characteristics adds (GattDB_init h0 a services)"
    and "v = db_characteristics (gattdb_objs h a)"
    and "(ks, sa) \<in> set (service_dicts h services)"
    and "h' = add_characteristic h sa key c"
  shows "view_len h v = sum_list (map (\<lambda>ksa. char_count h (snd ksa)) (service_dicts h services)) \<and>
         view_len h' v = sum_list (map (\<lambda>ksa. char_count h' (snd ksa)) (service_dicts h' services)) \<and>
         view_contains h' v (ObjUUID (c_uuid c)) \<and>
         (\<exists>c'. view_getitem h' v (ObjUUID (c_uuid c)) = Inr c' \<and>
               UUID_eq (c_uuid c') (ObjUUID (c_uuid c))) \<and>
         (\<not> view_contains h v (ObjUUID (c_uuid c)) \<longrightarrow>
            view_getitem h' v (ObjUUID (c_uuid c)) = Inr c)"
proof -
  define P where "P = (\<lambda>x :: Characteristic. UUID_eq (c_uuid x) (ObjUUID (c_uuid c)))"
  define dict where "dict = service_dicts h services"
  have Pc: "P c" by (simp add: P_def)
  have obj: "gattdb_objs h a = \<lparr>db_services = services, db_characteristics = \<lparr>view_db = a\<rparr>\<rparr>"
    by (simp add: assms(1) add_characteristics_keeps GattDB_init_obj)
  then have v: "view_db v = a" by (simp add: assms(2))
  have obj': "gattdb_objs h' a = gattdb_objs h a" and dict': "service_dicts h' = service_dicts h"
    by (simp_all add: assms(4))
  have vs: "view_services h v = map (\<lambda>(k, s). (k, service_objs h s)) dict"
    by (simp add: view_services_def v obj dict_def)
  have vs': "view_services h' v = map (\<lambda>(k, s). (k, service_objs h' s)) dict"
    by (simp add: view_services_def v obj obj' dict' dict_def)
  have len: "view_len h v = sum_list (map (\<lambda>ksa. char_count h (snd ksa)) (service_dicts h services))"
    by (simp add: view_len_sum v obj)
  have len': "view_len h' v = sum_list (map (\<lambda>ksa. char_count h' (snd ksa)) (service_dicts h' services))"
    by (simp add: view_len_sum v obj obj' dict')
  have new: "s_chars (service_objs h' sa) = dict_set (s_chars (service_objs h sa)) key c"
    and old: "\<And>s. s \<noteq> sa \<Longrightarrow> service_objs h' s = service_objs h s"
    by (simp_all add: assms(4) add_characteristic_def)
  have mem: "(ks, service_objs h' sa) \<in> set (view_services h' v)"
    using assms(3) by (force simp: vs' dict_def)
  obtain c1 where c1: "scan_chars P (s_chars (service_objs h' sa)) = Some c1"
    using scan_chars_dict_set [of P c "s_chars (service_objs h sa)" key] Pc new by auto
  from scan_services_some [OF mem c1] obtain y where y: "scan_services P (view_services h' v) = Some y"
    by blast
  then have Py: "P y" by (rule scan_services_sat)
  have found: "view_contains h' v (ObjUUID (c_uuid c))"
    using y by (simp add: view_contains_def CharacteristicView_contains_def P_def)
  have got: "\<exists>c'. view_getitem h' v (ObjUUID (c_uuid c)) = Inr c' \<and>
               UUID_eq (c_uuid c') (ObjUUID (c_uuid c))"
    using y Py by (simp add: view_getitem_def CharacteristicView_getitem_def P_def)
  have fresh: "view_getitem h' v (ObjUUID (c_uuid c)) = Inr c"
    if "\<not> view_contains h v (ObjUUID (c_uuid c))"
  proof -
    from that have none: "scan_services P (view_services h v) = None"
      by (simp add: view_contains_def CharacteristicView_contains_def P_def split: option.splits)
    have each: "scan_chars P (s_chars (service_objs h s)) = None" if "(k, s) \<in> set dict" for k s
    proof -
      from that have "(k, service_objs h s) \<in> set (view_services h v)"
        by (force simp: vs)
      with none show ?thesis by (rule scan_services_none)
    qed
    have at_sa: "scan_chars P (s_chars (service_objs h' sa)) = Some c"
      using each [of ks sa] assms(3) Pc by (simp add: new dict_def scan_chars_dict_set_new)
    have "\<forall>kx \<in> set (view_services h' v).
            scan_chars P (s_chars (snd kx)) = None \<or> scan_chars P (s_chars (snd kx)) = Some c"
    proof
      fix kx assume "kx \<in> set (view_services h' v)"
      then obtain k s where ks: "(k, s) \<in> set dict" "kx = (k, service_objs h' s)"
        by (auto simp: vs')
      show "scan_chars P (s_chars (snd kx)) = None \<or> scan_chars P (s_chars (snd kx)) = Some c"
      proof (cases "s = sa")
        case True
        with at_sa ks(2) show ?thesis by simp
      next
        case False
        with each [OF ks(1)] ks(2) old show ?thesis by simp
      qed
    qed
    with mem at_sa have "scan_services P (view_services h' v) = Some c"
      by (rule scan_services_only)
    then show ?thesis
      by (simp add: view_getitem_def CharacteristicView_getitem_def P_def)
  qed
  from len len' found got fresh show ?thesis by blast
qed


text \<open>
  The view of the Battery table has length 1 and does not hold the Model Number UUID;
  after the characteristic is added to the Battery service the same view has length 2
  and returns it.
\<close>

theorem characteristic_view_is_live_witness:
  "live_store = add_characteristics [] (GattDB_init battery_store 5 0) \<and>
   live_view = db_characteristics (gattdb_objs live_store 5) \<and>
   (S_BATTERY, 1) \<in> set (service_dicts live_store 0) \<and>
   grown_store = add_characteristic live_store 1 INF_MODEL_NUM model_number \<and>
   \<not> view_contains live_store live_view (ObjUUID (c_uuid model_number)) \<and>
   view_len live_store live_view = 1 \<and>
   view_len grown_store live_view = 2 \<and>
   view_contains grown_store live_view (ObjUUID (c_uuid model_number)) \<and>
   view_getitem grown_store live_view (ObjUUID (c_uuid model_number)) = Inr model_number"
proof -
  have a: "live_store = add_characteristics [] (GattDB_init battery_store 5 0)"
    by (simp add: live_store_def add_characteristics_def)
  have b: "live_view = db_characteristics (gattdb_objs live_store 5)"
    by (simp add: live_view_def)
  have c: "(S_BATTERY, 1) \<in> set (service_dicts live_store 0)"
    by (simp add: live_store_def GattDB_init_def battery_store_def)
  have d: "grown_store = add_characteristic live_store 1 INF_MODEL_NUM model_number"
    by (simp add: grown_store_def)
  have dicts: "service_dicts live_store 0 = [(S_BATTERY, 1)]"
    "service_dicts grown_store 0 = [(S_BATTERY, 1)]"
    by (simp_all add: grown_store_def live_store_def GattDB_init_def battery_store_def)
  have counts: "char_count live_store 1 = 1" "char_count grown_store 1 = 2"
    by (simp_all add: char_count_def grown_store_def add_characteristic_def live_store_def
        GattDB_init_def battery_store_def battery_service_def Service_post_init_def
        BATT_LEVEL_def INF_MODEL_NUM_def)
  have e: "\<not> view_contains live_store live_view (ObjUUID (c_uuid model_number))"
    by (simp add: view_contains_def CharacteristicView_contains_def view_services_def
        live_view_def live_store_def GattDB_init_def battery_store_def battery_service_def
        Service_post_init_def battery_level_def model_number_def Characteristic_post_init_def
        inherit_name_def BATT_LEVEL_def INF_MODEL_NUM_def)
  note live = characteristic_view_is_live [OF a b c d]
  from live counts have "view_len live_store live_view = 1" "view_len grown_store live_view = 2"
    by (simp_all add: dicts)
  moreover from live have "view_contains grown_store live_view (ObjUUID (c_uuid model_number))"
    by blast
  moreover from live e
  have "view_getitem grown_store live_view (ObjUUID (c_uuid model_number)) = Inr model_number"
    by blast
  ultimately show ?thesis
    using a b c d e by blast
qed

text \<open>
  As the claim states it, the added characteristic is the one the lookup finds. The
  lookup returns the first match in mapping order: when the Device Information service,
  which comes first, already holds the Model Number UUID, a second characteristic with
  that UUID added to the Battery service makes the view one longer, and the lookup
  still returns the older characteristic.
\<close>

theorem characteristic_view_duplicate_counterexample:
  "two_service_live = GattDB_init two_service_store 5 0 \<and>
   two_service_view = db_characteristics (gattdb_objs two_service_live 5) \<and>
   service_dicts two_service_live 0 = [(S_DEV_INFO, 2), (S_BATTERY, 1)] \<and>
   two_service_grown = add_characteristic two_service_live 1 INF_MODEL_NUM second_model_number \<and>
   view_len two_service_live two_service_view = 2 \<and>
   view_len two_service_grown two_service_view = 3 \<and>
   s_chars (service_objs two_service_grown 1) =
     [(BATT_LEVEL, battery_level), (INF_MODEL_NUM, second_model_number)] \<and>
   view_getitem two_service_grown two_service_view (ObjUUID (c_uuid second_model_number)) =
     Inr model_number \<and>
   model_number \<noteq> second_model_number"
proof -
  have dict: "service_dicts two_service_live 0 = [(S_DEV_INFO, 2), (S_BATTERY, 1)]"
    "service_dicts two_service_grown 0 = [(S_DEV_INFO, 2), (S_BATTERY, 1)]"
    by (simp_all add: two_service_grown_def two_service_live_def GattDB_init_def
        two_service_store_def)
  have view: "view_db two_service_view = 5"
    "db_services (gattdb_objs two_service_live 5) = 0"
    "db_services (gattdb_objs two_service_grown 5) = 0"
    by (simp_all add: two_service_view_def two_service_grown_def two_service_live_def
        GattDB_init_def)
  have objs: "service_objs two_service_live 2 = dev_info_service"
    "service_objs two_service_live 1 = battery_service"
    "service_objs two_service_grown 2 = dev_info_service"
    by (simp_all add: two_service_grown_def add_characteristic_def two_service_live_def
        GattDB_init_def two_service_store_def)
  have chars: "s_chars dev_info_service = [(INF_MODEL_NUM, model_number)]"
    "s_chars battery_service = [(BATT_LEVEL, battery_level)]"
    by (simp_all add: dev_info_service_def battery_service_def Service_post_init_def)
  have grown: "s_chars (service_objs two_service_grown 1) =
      [(BATT_LEVEL, battery_level), (INF_MODEL_NUM, second_model_number)]"
    by (simp add: two_service_grown_def add_characteristic_def two_service_live_def
        GattDB_init_def two_service_store_def chars BATT_LEVEL_def INF_MODEL_NUM_def)
  have uu: "c_uuid model_number = INF_MODEL_NUM" "c_uuid second_model_number = INF_MODEL_NUM"
    by (simp_all add: model_number_def second_model_number_def Characteristic_post_init_def
        inherit_name_def INF_MODEL_NUM_def)
  have len: "view_len two_service_live two_service_view = 2"
    "view_len two_service_grown two_service_view = 3"
    using objs grown
    by (simp_all add: view_len_sum view dict char_count_def chars)
  have get: "view_getitem two_service_grown two_service_view
      (ObjUUID (c_uuid second_model_number)) = Inr model_number"
    using objs grown
    by (simp add: view_getitem_def CharacteristicView_getitem_def view_services_def view dict
        chars uu)
  have ne: "model_number \<noteq> second_model_number"
    by (simp add: model_number_def second_model_number_def Characteristic_post_init_def)
  show ?thesis
    using dict(1) grown len get ne
    by (simp add: two_service_live_def two_service_view_def two_service_grown_def)
qed

end
